theory Spec2Isabelle
  imports Main "HOL-Library.Word" "HOL-Library.Monad_Syntax"
begin

section \<open>Session registry of the cline-mcp-server\<close>

text \<open>
  A shallow embedding of \<^verbatim>\<open>src/cline-mcp-server/src/lib/sessionManager.ts\<close>, of the
  \<^verbatim>\<open>RedisClient\<close> class it writes through and of the tool dispatcher of
  \<^verbatim>\<open>src/cline-mcp-server/src/index.ts\<close>.

  Strings are \<^typ>\<open>string\<close>, read as the UTF-8 bytes of the JavaScript string (so a
  string with an unpaired surrogate has no counterpart here). Every \<^verbatim>\<open>await\<close> is run to
  completion in program order: one caller, no interleaving. \<^verbatim>\<open>console.log\<close> and
  \<^verbatim>\<open>console.error\<close> are left out.
\<close>

subsection \<open>What the runtime supplies\<close>

text \<open>
  Three functions of the runtime are not code of the repository and are taken as
  parameters, so that every theorem below holds for whatever they compute:
  \<^item> \<open>sha256\<close>: the digest bytes of \<^verbatim>\<open>crypto.createHash('sha256').update(s)\<close>;
  \<^item> \<open>toISOString\<close>: \<^verbatim>\<open>Date.prototype.toISOString\<close> on a time value, the milliseconds
    since the epoch that \<^verbatim>\<open>new Date()\<close> read from the system clock;
  \<^item> \<open>errorMessage\<close>: the \<^verbatim>\<open>message\<close> property the SDK's \<^verbatim>\<open>McpError\<close> constructor builds
    from its code and message arguments.
  The values the environment produces during a call (the sixteen bytes of
  \<^verbatim>\<open>crypto.randomBytes(16)\<close>, the clock readings of \<^verbatim>\<open>new Date()\<close>) are arguments of the
  operation that consumes them, in the order the source reads them.
\<close>

type_synonym byte = "8 word"

datatype ErrorCode = InvalidParams | MethodNotFound | InternalError

record platform =
  sha256 :: "string \<Rightarrow> byte list"
  toISOString :: "int \<Rightarrow> string"
  errorMessage :: "ErrorCode \<Rightarrow> string \<Rightarrow> string"

subsection \<open>Hexadecimal encoding\<close>

text \<open>
  \<^verbatim>\<open>Buffer.toString('hex')\<close> and \<^verbatim>\<open>digest('hex')\<close>: two lower-case digits per byte, the high
  nibble first.
\<close>

definition hexDigit :: "nat \<Rightarrow> char" where
  "hexDigit n = ''0123456789abcdef'' ! (n mod 16)"

definition hexByte :: "byte \<Rightarrow> string" where
  "hexByte b = [hexDigit (unat b div 16), hexDigit (unat b mod 16)]"

definition toHex :: "byte list \<Rightarrow> string" where
  "toHex bs = concat (map hexByte bs)"

subsection \<open>Key derivation (sessionManager.ts, lines 17-40)\<close>

definition SESSION_PREFIX :: string where
  "SESSION_PREFIX = ''cline:session:''"

definition CONTEXT_PREFIX :: string where
  "CONTEXT_PREFIX = ''cline:context:''"

text \<open>\<^verbatim>\<open>crypto.randomBytes(16).toString('hex')\<close>; \<open>rnd\<close> is the buffer \<^verbatim>\<open>randomBytes\<close> returned.\<close>

definition generateSessionId :: "byte list \<Rightarrow> string" where
  "generateSessionId rnd = toHex rnd"

text \<open>\<^verbatim>\<open>substring(0, 8)\<close> keeps the first eight characters, fewer when the string is shorter.\<close>

definition hashDirectory :: "platform \<Rightarrow> string \<Rightarrow> string" where
  "hashDirectory P dir = take 8 (toHex (sha256 P dir))"

definition getContextKey :: "platform \<Rightarrow> string \<Rightarrow> string \<Rightarrow> string" where
  "getContextKey P dir sessionId =
     (let dirHash = hashDirectory P dir
      in CONTEXT_PREFIX @ dirHash @ '':'' @ sessionId)"

subsection \<open>The session record (sessionManager.ts, lines 4-14)\<close>

record history_entry =
  timestamp :: string
  content :: string

record session_metadata =
  createdAt :: string
  lastAccessed :: string

record SessionContext =
  directory :: string
  history :: "history_entry list"
  metadata :: session_metadata

subsection \<open>JSON text of a session record\<close>

text \<open>
  \<^verbatim>\<open>JSON.stringify\<close> on an object of the shape \<^verbatim>\<open>SessionContext\<close>: the properties in the order
  the object literals of \<^verbatim>\<open>createSession\<close> and \<^verbatim>\<open>updateContext\<close> create them, no white space,
  strings quoted as ECMAScript's QuoteJSONString does (the two-character escapes for
  backspace, tab, line feed, form feed, carriage return, the double quote and the
  backslash; \<^verbatim>\<open>\u00XX\<close> for the other characters below U+0020; every other character as it
  is).
\<close>

definition escapeChar :: "char \<Rightarrow> string" where
  "escapeChar c =
     (if c = CHR 0x08 then [CHR 0x5C, CHR ''b'']
      else if c = CHR 0x09 then [CHR 0x5C, CHR ''t'']
      else if c = CHR 0x0A then [CHR 0x5C, CHR ''n'']
      else if c = CHR 0x0C then [CHR 0x5C, CHR ''f'']
      else if c = CHR 0x0D then [CHR 0x5C, CHR ''r'']
      else if c = CHR 0x22 then [CHR 0x5C, CHR 0x22]
      else if c = CHR 0x5C then [CHR 0x5C, CHR 0x5C]
      else if (of_char c :: nat) < 0x20
        then [CHR 0x5C, CHR ''u'', CHR ''0'', CHR ''0'',
              hexDigit (of_char c div 16), hexDigit (of_char c mod 16)]
      else [c])"

definition QuoteJSONString :: "string \<Rightarrow> string" where
  "QuoteJSONString s = [CHR 0x22] @ concat (map escapeChar s) @ [CHR 0x22]"

definition stringifyEntry :: "history_entry \<Rightarrow> string" where
  \<open>stringifyEntry e =
     ''{"timestamp":'' @ QuoteJSONString (timestamp e)
     @ '',"content":'' @ QuoteJSONString (content e) @ ''}''\<close>

fun joinComma :: "string list \<Rightarrow> string" where
  "joinComma [] = []"
| "joinComma [x] = x"
| "joinComma (x # y # ys) = x @ '','' @ joinComma (y # ys)"

definition JSON_stringify :: "SessionContext \<Rightarrow> string" where
  \<open>JSON_stringify c =
     ''{"directory":'' @ QuoteJSONString (directory c)
     @ '',"history":['' @ joinComma (map stringifyEntry (history c)) @ '']''
     @ '',"metadata":{"createdAt":'' @ QuoteJSONString (createdAt (metadata c))
     @ '',"lastAccessed":'' @ QuoteJSONString (lastAccessed (metadata c)) @ ''}}''\<close>

text \<open>
  \<^verbatim>\<open>JSON.parse(data) as SessionContext\<close>, on the texts the registry itself stores. The reader
  below accepts a text of the layout \<open>JSON_stringify\<close> writes, with any of JSON's string
  escapes that denote an ASCII character, and answers \<open>None\<close> on every other text. On
  those the source may raise a \<^verbatim>\<open>SyntaxError\<close>, raise a \<^verbatim>\<open>TypeError\<close> at a missing field, or
  carry on with an object of another shape; none of that is modelled, and no theorem
  below speaks about it.
\<close>

definition hexValue :: "char \<Rightarrow> nat option" where
  "hexValue c =
     (let n = (of_char c :: nat)
      in if 48 \<le> n \<and> n \<le> 57 then Some (n - 48)
         else if 97 \<le> n \<and> n \<le> 102 then Some (n - 87)
         else if 65 \<le> n \<and> n \<le> 70 then Some (n - 55)
         else None)"

definition unescape :: "char \<Rightarrow> char option" where
  "unescape e =
     (if e = CHR 0x22 then Some (CHR 0x22)
      else if e = CHR 0x5C then Some (CHR 0x5C)
      else if e = CHR ''/'' then Some (CHR ''/'')
      else if e = CHR ''b'' then Some (CHR 0x08)
      else if e = CHR ''f'' then Some (CHR 0x0C)
      else if e = CHR ''n'' then Some (CHR 0x0A)
      else if e = CHR ''r'' then Some (CHR 0x0D)
      else if e = CHR ''t'' then Some (CHR 0x09)
      else None)"

definition unicodeEscape :: "char \<Rightarrow> char \<Rightarrow> char \<Rightarrow> char \<Rightarrow> char option" where
  "unicodeEscape h1 h2 h3 h4 =
     (case (hexValue h1, hexValue h2, hexValue h3, hexValue h4) of
        (Some a, Some b, Some c, Some d) \<Rightarrow>
          (if a = 0 \<and> b = 0 \<and> c < 8 then Some (char_of (16 * c + d)) else None)
      | _ \<Rightarrow> None)"

definition consChar :: "char \<Rightarrow> (string \<times> string) option \<Rightarrow> (string \<times> string) option" where
  "consChar c p = (case p of None \<Rightarrow> None | Some (s, rest) \<Rightarrow> Some (c # s, rest))"

text \<open>The characters of a string up to its closing quote, and the text after the quote.\<close>

fun parseChars :: "string \<Rightarrow> (string \<times> string) option" where
  "parseChars [] = None"
| "parseChars (c # cs) =
     (if c = CHR 0x22 then Some ([], cs)
      else if c = CHR 0x5C then
        (case cs of
           [] \<Rightarrow> None
         | e # cs' \<Rightarrow>
             (if e = CHR ''u'' then
                (case cs' of
                   h1 # h2 # h3 # h4 # rest \<Rightarrow>
                     (case unicodeEscape h1 h2 h3 h4 of
                        None \<Rightarrow> None
                      | Some ch \<Rightarrow> consChar ch (parseChars rest))
                 | _ \<Rightarrow> None)
              else
                (case unescape e of
                   None \<Rightarrow> None
                 | Some ch \<Rightarrow> consChar ch (parseChars cs'))))
      else if (of_char c :: nat) < 0x20 then None
      else consChar c (parseChars cs))"

definition parseString :: "string \<Rightarrow> (string \<times> string) option" where
  "parseString s =
     (case s of [] \<Rightarrow> None | c # cs \<Rightarrow> if c = CHR 0x22 then parseChars cs else None)"

definition expect :: "string \<Rightarrow> string \<Rightarrow> string option" where
  "expect p s = (if take (length p) s = p then Some (drop (length p) s) else None)"

definition parseEntry :: "string \<Rightarrow> (history_entry \<times> string) option" where
  \<open>parseEntry s = do {
     s1 \<leftarrow> expect ''{"timestamp":'' s;
     (ts, s2) \<leftarrow> parseString s1;
     s3 \<leftarrow> expect '',"content":'' s2;
     (c, s4) \<leftarrow> parseString s3;
     s5 \<leftarrow> expect ''}'' s4;
     Some (\<lparr>timestamp = ts, content = c\<rparr>, s5)
   }\<close>

text \<open>Every reader consumes input, which is what makes the reader of the array terminate.\<close>

lemma consChar_SomeD: "consChar c p = Some (x, r) \<Longrightarrow> \<exists>y. p = Some (y, r)"
  by (auto simp: consChar_def split: option.splits)

lemma parseChars_shorter: "parseChars s = Some (x, r) \<Longrightarrow> length r < length s"
proof (induction s arbitrary: x r rule: length_induct)
  case (1 s)
  have IH: "length r < length t" if "length t < length s" "parseChars t = Some (y, r)" for t y
    using "1.IH" that by blast
  from "1.prems" obtain c cs where s: "s = c # cs" by (cases s) auto
  show ?case
  proof (cases "c = CHR 0x22")
    case True
    with "1.prems" s show ?thesis by simp
  next
    case nq: False
    show ?thesis
    proof (cases "c = CHR 0x5C")
      case False
      with nq "1.prems" s obtain y where "parseChars cs = Some (y, r)"
        by (auto split: if_splits dest: consChar_SomeD)
      with IH [of cs y] s show ?thesis by simp
    next
      case bs: True
      from "1.prems" s nq bs obtain e cs' where cs: "cs = e # cs'"
        by (cases cs) auto
      show ?thesis
      proof (cases "e = CHR ''u''")
        case False
        with "1.prems" s nq bs cs obtain y where "parseChars cs' = Some (y, r)"
          by (auto split: option.splits dest: consChar_SomeD)
        with IH [of cs' y] s cs show ?thesis by simp
      next
        case True
        with "1.prems" s nq bs cs obtain h1 h2 h3 h4 rest y
          where "cs' = h1 # h2 # h3 # h4 # rest" "parseChars rest = Some (y, r)"
          by (auto split: list.splits option.splits dest: consChar_SomeD)
        with IH [of rest y] s cs show ?thesis by simp
      qed
    qed
  qed
qed

lemma parseString_shorter: "parseString s = Some (x, r) \<Longrightarrow> length r < length s"
  by (auto simp: parseString_def split: list.splits if_splits dest: parseChars_shorter)

lemma expect_shorter: "expect p s = Some r \<Longrightarrow> length r \<le> length s"
  by (auto simp: expect_def split: if_splits)

lemma parseEntry_shorter: "parseEntry s = Some (e, r) \<Longrightarrow> length r < length s"
  unfolding parseEntry_def
  by (auto split: option.splits Option.bind_splits dest!: expect_shorter parseString_shorter)

text \<open>The entries of a non-empty array, up to and including the closing bracket.\<close>

function parseEntries :: "string \<Rightarrow> (history_entry list \<times> string) option" where
  "parseEntries s =
     (case parseEntry s of
        None \<Rightarrow> None
      | Some (e, s1) \<Rightarrow>
          (case s1 of
             [] \<Rightarrow> None
           | c # s2 \<Rightarrow>
               if c = CHR '','' then
                 (case parseEntries s2 of None \<Rightarrow> None | Some (es, r) \<Rightarrow> Some (e # es, r))
               else if c = CHR '']'' then Some ([e], s2)
               else None))"
  by pat_completeness auto
termination
  by (relation "measure length") (auto dest: parseEntry_shorter)

definition parseHistory :: "string \<Rightarrow> (history_entry list \<times> string) option" where
  "parseHistory s =
     (case s of
        [] \<Rightarrow> None
      | c # r \<Rightarrow> if c = CHR '']'' then Some ([], r) else parseEntries s)"

definition JSON_parse :: "string \<Rightarrow> SessionContext option" where
  \<open>JSON_parse s = do {
     s1 \<leftarrow> expect ''{"directory":'' s;
     (d, s2) \<leftarrow> parseString s1;
     s3 \<leftarrow> expect '',"history":['' s2;
     (h, s4) \<leftarrow> parseHistory s3;
     s5 \<leftarrow> expect '',"metadata":{"createdAt":'' s4;
     (ca, s6) \<leftarrow> parseString s5;
     s7 \<leftarrow> expect '',"lastAccessed":'' s6;
     (la, s8) \<leftarrow> parseString s7;
     s9 \<leftarrow> expect ''}}'' s8;
     if s9 = [] then
       Some \<lparr>directory = d, history = h, metadata = \<lparr>createdAt = ca, lastAccessed = la\<rparr>\<rparr>
     else None
   }\<close>

subsection \<open>The store adapter (class RedisClient, index.ts lines 231-286)\<close>

text \<open>
  The adapter holds the flag \<^verbatim>\<open>connected\<close> and the handle \<^verbatim>\<open>client\<close> of the backend. The
  backend is the source's only storage, so the model's \<open>client\<close> is the key space that
  handle reaches: a map from keys to values. The backend is taken to answer every request
  (an I/O failure would propagate as an exception of the backend's, which is not modelled).
  \<^verbatim>\<open>connect\<close> asks the backend to connect when the flag is off, and the handler of its
  \<^verbatim>\<open>'connect'\<close> event turns the flag on.
\<close>

record RedisClient =
  connected :: bool
  client :: "string \<rightharpoonup> string"

definition redisClient_connect :: "RedisClient \<Rightarrow> RedisClient" where
  "redisClient_connect r = (if \<not> connected r then r\<lparr>connected := True\<rparr> else r)"

definition redisClient_disconnect :: "RedisClient \<Rightarrow> RedisClient" where
  "redisClient_disconnect r = (if connected r then r\<lparr>connected := False\<rparr> else r)"

text \<open>
  \<^verbatim>\<open>set(key, value, expireSeconds?)\<close>: every call of the repository passes two arguments, so
  \<^verbatim>\<open>expireSeconds\<close> is \<^verbatim>\<open>undefined\<close> and the branch without expiry runs. That branch is the one
  modelled.
\<close>

definition redisClient_set :: "RedisClient \<Rightarrow> string \<Rightarrow> string \<Rightarrow> RedisClient" where
  "redisClient_set r key v =
     (let r1 = redisClient_connect r
      in r1\<lparr>client := (client r1)(key \<mapsto> v)\<rparr>)"

definition redisClient_get :: "RedisClient \<Rightarrow> string \<Rightarrow> string option \<times> RedisClient" where
  "redisClient_get r key =
     (let r1 = redisClient_connect r
      in (client r1 key, r1))"

definition redisClient_delete :: "RedisClient \<Rightarrow> string \<Rightarrow> RedisClient" where
  "redisClient_delete r key =
     (let r1 = redisClient_connect r
      in r1\<lparr>client := (client r1)(key := None)\<rparr>)"

definition isConnected :: "RedisClient \<Rightarrow> bool" where
  "isConnected r = connected r"

subsection \<open>The session registry (sessionManager.ts, lines 42-128)\<close>

text \<open>
  What a call can throw. \<open>Error\<close> is JavaScript's \<^verbatim>\<open>Error\<close> with its message, \<open>McpError\<close> the
  SDK's error with the code and the message given to its constructor. \<open>Unmodelled\<close> marks
  a stored text that \<open>JSON_parse\<close> does not read: the call has left the model.
\<close>

datatype exception = Error string | McpError ErrorCode string | Unmodelled

text \<open>
  An operation takes the adapter's state and returns its result with the state it leaves.
  \<open>rnd\<close> is the buffer of \<^verbatim>\<open>crypto.randomBytes(16)\<close>; \<open>t1\<close>, \<open>t2\<close> are the readings of the first
  and the second \<^verbatim>\<open>new Date()\<close> of the call.
\<close>

definition createSession ::
  "platform \<Rightarrow> RedisClient \<Rightarrow> string \<Rightarrow> byte list \<Rightarrow> int \<Rightarrow> int \<Rightarrow> string \<times> RedisClient" where
  "createSession P r dir rnd t1 t2 =
     (let sessionId = generateSessionId rnd;
          contextKey = getContextKey P dir sessionId;
          initialContext =
            \<lparr>directory = dir,
             history = [],
             metadata = \<lparr>createdAt = toISOString P t1, lastAccessed = toISOString P t2\<rparr>\<rparr>
      in (sessionId, redisClient_set r contextKey (JSON_stringify initialContext)))"

text \<open>
  \<^verbatim>\<open>!data\<close> holds for \<^verbatim>\<open>null\<close> and for the empty string. The record returned is the object that
  was changed in place, so it carries the new \<^verbatim>\<open>lastAccessed\<close>.
\<close>

definition getContext ::
  "platform \<Rightarrow> RedisClient \<Rightarrow> string \<Rightarrow> string \<Rightarrow> int
     \<Rightarrow> (exception + SessionContext option) \<times> RedisClient" where
  "getContext P r dir sessionId t =
     (let contextKey = getContextKey P dir sessionId;
          (data, r1) = redisClient_get r contextKey
      in case data of
           None \<Rightarrow> (Inr None, r1)
         | Some text \<Rightarrow>
             if text = [] then (Inr None, r1)
             else
               (case JSON_parse text of
                  None \<Rightarrow> (Inl Unmodelled, r1)
                | Some context \<Rightarrow>
                    (let context' =
                           context\<lparr>metadata := (metadata context)\<lparr>lastAccessed := toISOString P t\<rparr>\<rparr>
                     in (Inr (Some context'),
                         redisClient_set r1 contextKey (JSON_stringify context')))))"

definition updateContext ::
  "platform \<Rightarrow> RedisClient \<Rightarrow> string \<Rightarrow> string \<Rightarrow> string \<Rightarrow> int \<Rightarrow> int
     \<Rightarrow> (exception + unit) \<times> RedisClient" where
  "updateContext P r dir sessionId body t1 t2 =
     (let contextKey = getContextKey P dir sessionId;
          (existingData, r1) = redisClient_get r contextKey;
          notFound = Error (''No context found for session '' @ sessionId
                            @ '' in directory '' @ dir)
      in case existingData of
           None \<Rightarrow> (Inl notFound, r1)
         | Some existing \<Rightarrow>
             if existing = [] then (Inl notFound, r1)
             else
               (case JSON_parse existing of
                  None \<Rightarrow> (Inl Unmodelled, r1)
                | Some context \<Rightarrow>
                    (let extended =
                           context\<lparr>history :=
                             history context @ [\<lparr>timestamp = toISOString P t1, content = body\<rparr>]\<rparr>;
                         context' =
                           extended\<lparr>metadata := (metadata extended)\<lparr>lastAccessed := toISOString P t2\<rparr>\<rparr>
                     in (Inr (), redisClient_set r1 contextKey (JSON_stringify context')))))"

definition endSession :: "platform \<Rightarrow> RedisClient \<Rightarrow> string \<Rightarrow> string \<Rightarrow> RedisClient" where
  "endSession P r dir sessionId =
     (let contextKey = getContextKey P dir sessionId
      in redisClient_delete r contextKey)"

definition validateSession ::
  "platform \<Rightarrow> RedisClient \<Rightarrow> string \<Rightarrow> string \<Rightarrow> int \<Rightarrow> (exception + bool) \<times> RedisClient" where
  "validateSession P r dir sessionId t =
     (case getContext P r dir sessionId t of
        (Inl e, r1) \<Rightarrow> (Inl e, r1)
      | (Inr context, r1) \<Rightarrow>
          (Inr (case context of None \<Rightarrow> False | Some c \<Rightarrow> directory c = dir), r1))"

subsection \<open>The tool dispatcher (index.ts, lines 119-205)\<close>

text \<open>
  The values a request can carry as \<^verbatim>\<open>arguments\<close>. The dispatcher asks of a value only its
  truthiness, its \<^verbatim>\<open>typeof\<close>, whether it has a property and what the property is, so a number
  is kept as an integer (\<^verbatim>\<open>NaN\<close>, the infinities and fractions are numbers to \<^verbatim>\<open>typeof\<close> like
  any other). An object is the list of its own properties.
\<close>

datatype js_value =
    Undefined
  | Null
  | Boolean bool
  | Number int
  | String string
  | Array "js_value list"
  | Object "(string \<times> js_value) list"

fun typeof :: "js_value \<Rightarrow> string" where
  "typeof Undefined = ''undefined''"
| "typeof Null = ''object''"
| "typeof (Boolean b) = ''boolean''"
| "typeof (Number n) = ''number''"
| "typeof (String s) = ''string''"
| "typeof (Array xs) = ''object''"
| "typeof (Object ps) = ''object''"

text \<open>\<^verbatim>\<open>!v\<close>\<close>

fun falsy :: "js_value \<Rightarrow> bool" where
  "falsy Undefined = True"
| "falsy Null = True"
| "falsy (Boolean b) = (\<not> b)"
| "falsy (Number n) = (n = 0)"
| "falsy (String s) = (s = [])"
| "falsy (Array xs) = False"
| "falsy (Object ps) = False"

text \<open>
  \<^verbatim>\<open>name in v\<close> and \<^verbatim>\<open>v.name\<close>, for the three names the dispatcher asks for
  (\<^verbatim>\<open>directory\<close>, \<^verbatim>\<open>sessionId\<close>, \<^verbatim>\<open>content\<close>): an array has no such property, and neither has
  \<^verbatim>\<open>Object.prototype\<close>, so only an object's own properties count.
\<close>

fun hasProperty :: "string \<Rightarrow> js_value \<Rightarrow> bool" where
  "hasProperty name (Object ps) = (name \<in> fst ` set ps)"
| "hasProperty name v = False"

fun getProperty :: "js_value \<Rightarrow> string \<Rightarrow> js_value" where
  "getProperty (Object ps) name = (case map_of ps name of None \<Rightarrow> Undefined | Some v \<Rightarrow> v)"
| "getProperty v name = Undefined"

text \<open>The string a value is; applied only where \<^verbatim>\<open>typeof\<close> has answered \<^verbatim>\<open>'string'\<close>.\<close>

fun stringOf :: "js_value \<Rightarrow> string" where
  "stringOf (String s) = s"
| "stringOf v = []"

text \<open>The result of a call: \<^verbatim>\<open>{content: [{type: 'text', text}]}\<close>, kept as its text.\<close>

datatype tool_result = TextContent string

text \<open>
  \<^verbatim>\<open>error.message\<close> of what the \<^verbatim>\<open>catch\<close> clause caught. Everything thrown inside the \<^verbatim>\<open>try\<close> is an
  \<^verbatim>\<open>Error\<close>, so \<^verbatim>\<open>String(error)\<close> is never taken.
\<close>

fun messageOf :: "platform \<Rightarrow> exception \<Rightarrow> string" where
  "messageOf P (Error m) = m"
| "messageOf P (McpError code m) = errorMessage P code m"
| "messageOf P Unmodelled = []"

text \<open>
  The body of the \<^verbatim>\<open>try\<close> block: the \<^verbatim>\<open>switch\<close> over the tool name. Each case checks its
  arguments first and throws \<^verbatim>\<open>McpError(ErrorCode.InvalidParams, ...)\<close> before the registry is
  called; the \<^verbatim>\<open>default\<close> case throws \<^verbatim>\<open>McpError(ErrorCode.MethodNotFound, ...)\<close>.
\<close>

definition toolSwitch ::
  "platform \<Rightarrow> RedisClient \<Rightarrow> string \<Rightarrow> js_value \<Rightarrow> byte list \<Rightarrow> int \<Rightarrow> int
     \<Rightarrow> (exception + tool_result) \<times> RedisClient" where
  \<open>toolSwitch P r name args rnd t1 t2 =
     (if name = ''create_session'' then
        (if \<not> hasProperty ''directory'' args \<or> typeof (getProperty args ''directory'') \<noteq> ''string''
         then (Inl (McpError InvalidParams ''Invalid directory parameter''), r)
         else
           (let (sessionId, r1) =
                  createSession P r (stringOf (getProperty args ''directory'')) rnd t1 t2
            in (Inr (TextContent (''{"sessionId":'' @ QuoteJSONString sessionId @ ''}'')), r1)))
      else if name = ''get_context'' then
        (if \<not> hasProperty ''directory'' args \<or> typeof (getProperty args ''directory'') \<noteq> ''string''
            \<or> \<not> hasProperty ''sessionId'' args \<or> typeof (getProperty args ''sessionId'') \<noteq> ''string''
         then (Inl (McpError InvalidParams ''Invalid directory or sessionId parameter''), r)
         else
           (case getContext P r (stringOf (getProperty args ''directory''))
                   (stringOf (getProperty args ''sessionId'')) t1 of
              (Inl e, r1) \<Rightarrow> (Inl e, r1)
            | (Inr context, r1) \<Rightarrow>
                (Inr (TextContent (case context of None \<Rightarrow> ''null'' | Some c \<Rightarrow> JSON_stringify c)),
                 r1)))
      else if name = ''update_context'' then
        (if \<not> hasProperty ''directory'' args \<or> typeof (getProperty args ''directory'') \<noteq> ''string''
            \<or> \<not> hasProperty ''sessionId'' args \<or> typeof (getProperty args ''sessionId'') \<noteq> ''string''
            \<or> \<not> hasProperty ''content'' args \<or> typeof (getProperty args ''content'') \<noteq> ''string''
         then (Inl (McpError InvalidParams ''Invalid directory, sessionId, or content parameter''), r)
         else
           (case updateContext P r (stringOf (getProperty args ''directory''))
                   (stringOf (getProperty args ''sessionId''))
                   (stringOf (getProperty args ''content'')) t1 t2 of
              (Inl e, r1) \<Rightarrow> (Inl e, r1)
            | (Inr u, r1) \<Rightarrow> (Inr (TextContent ''{"success":true}''), r1)))
      else if name = ''end_session'' then
        (if \<not> hasProperty ''directory'' args \<or> typeof (getProperty args ''directory'') \<noteq> ''string''
            \<or> \<not> hasProperty ''sessionId'' args \<or> typeof (getProperty args ''sessionId'') \<noteq> ''string''
         then (Inl (McpError InvalidParams ''Invalid directory or sessionId parameter''), r)
         else
           (let r1 = endSession P r (stringOf (getProperty args ''directory''))
                       (stringOf (getProperty args ''sessionId''))
            in (Inr (TextContent ''{"success":true}''), r1)))
      else (Inl (McpError MethodNotFound (''Unknown tool: '' @ name)), r))\<close>

text \<open>
  The request handler: the check of \<^verbatim>\<open>arguments\<close> stands before the \<^verbatim>\<open>try\<close>; whatever the
  \<^verbatim>\<open>try\<close> block throws is caught and thrown again as
  \<^verbatim>\<open>McpError(ErrorCode.InternalError, error.message)\<close>.
\<close>

definition callTool ::
  "platform \<Rightarrow> RedisClient \<Rightarrow> string \<Rightarrow> js_value \<Rightarrow> byte list \<Rightarrow> int \<Rightarrow> int
     \<Rightarrow> (exception + tool_result) \<times> RedisClient" where
  "callTool P r name args rnd t1 t2 =
     (if falsy args \<or> typeof args \<noteq> ''object''
      then (Inl (McpError InvalidParams ''Invalid arguments''), r)
      else
        (case toolSwitch P r name args rnd t1 t2 of
           (Inl Unmodelled, r1) \<Rightarrow> (Inl Unmodelled, r1)
         | (Inl e, r1) \<Rightarrow> (Inl (McpError InternalError (messageOf P e)), r1)
         | (Inr res, r1) \<Rightarrow> (Inr res, r1)))"

subsection \<open>Runs of registry operations\<close>

text \<open>
  A call of one of the four operations, with the values the environment hands it, and
  the state a sequence of calls leaves. The results of the calls are dropped.
\<close>

datatype call =
    CreateSession string "byte list" int int
  | GetContext string string int
  | UpdateContext string string string int int
  | EndSession string string

fun step :: "platform \<Rightarrow> RedisClient \<Rightarrow> call \<Rightarrow> RedisClient" where
  "step P r (CreateSession d rnd t1 t2) = snd (createSession P r d rnd t1 t2)"
| "step P r (GetContext d sid t) = snd (getContext P r d sid t)"
| "step P r (UpdateContext d sid c t1 t2) = snd (updateContext P r d sid c t1 t2)"
| "step P r (EndSession d sid) = endSession P r d sid"

fun run :: "platform \<Rightarrow> RedisClient \<Rightarrow> call list \<Rightarrow> RedisClient" where
  "run P r [] = r"
| "run P r (c # cs) = run P (step P r c) cs"

text \<open>
  The key a call addresses, the entry an \<^verbatim>\<open>updateContext\<close> call pushes, and what a run
  does at one key: the entries its updates push there in call order, whether it creates a
  session there, whether it ends one there. \<open>readings\<close> lists the clock readings of a call in
  the order the source takes them.
\<close>

fun callKey :: "platform \<Rightarrow> call \<Rightarrow> string" where
  "callKey P (CreateSession d rnd t1 t2) = getContextKey P d (generateSessionId rnd)"
| "callKey P (GetContext d sid t) = getContextKey P d sid"
| "callKey P (UpdateContext d sid c t1 t2) = getContextKey P d sid"
| "callKey P (EndSession d sid) = getContextKey P d sid"

fun isCreate :: "call \<Rightarrow> bool" where
  "isCreate (CreateSession d rnd t1 t2) = True"
| "isCreate c = False"

fun isEnd :: "call \<Rightarrow> bool" where
  "isEnd (EndSession d sid) = True"
| "isEnd c = False"

fun pushed :: "platform \<Rightarrow> string \<Rightarrow> call \<Rightarrow> history_entry list" where
  "pushed P k (UpdateContext d sid c t1 t2) =
     (if getContextKey P d sid = k then [\<lparr>timestamp = toISOString P t1, content = c\<rparr>] else [])"
| "pushed P k c = []"

fun readings :: "call \<Rightarrow> int list" where
  "readings (CreateSession d rnd t1 t2) = [t1, t2]"
| "readings (GetContext d sid t) = [t]"
| "readings (UpdateContext d sid c t1 t2) = [t1, t2]"
| "readings (EndSession d sid) = []"

subsection \<open>Timestamps and the clock\<close>

text \<open>
  The timestamps of a record are texts; the order spoken of is that of the clock readings
  they were made from. A record is \<open>chronological\<close> up to the reading \<open>now\<close> when its
  \<^verbatim>\<open>createdAt\<close> and the timestamps of its history are the texts of readings that do not
  decrease from \<^verbatim>\<open>createdAt\<close> along the history and do not exceed \<open>now\<close>. A store is \<open>timely\<close>
  when every record that can be read from it is.
\<close>

definition chronological :: "platform \<Rightarrow> int \<Rightarrow> SessionContext \<Rightarrow> bool" where
  "chronological P now c =
     (\<exists>t0 ts. createdAt (metadata c) = toISOString P t0
        \<and> map timestamp (history c) = map (toISOString P) ts
        \<and> sorted (t0 # ts @ [now]))"

definition timely :: "platform \<Rightarrow> int \<Rightarrow> RedisClient \<Rightarrow> bool" where
  "timely P now r =
     (\<forall>k s c. client r k = Some s \<and> JSON_parse s = Some c \<longrightarrow> chronological P now c)"

subsection \<open>A platform to run the model on\<close>

text \<open>
  Stand-ins for the three runtime functions, small enough to evaluate: the digest is
  thirty-two copies of the length of its input, a time value is written as that many
  strokes, and the message of an \<^verbatim>\<open>McpError\<close> is the message it was given. They are not
  Node's functions; they only serve to run the definitions on concrete inputs.
\<close>

definition testPlatform :: platform where
  "testPlatform =
     \<lparr>sha256 = (\<lambda>s. replicate 32 (of_nat (length s))),
      toISOString = (\<lambda>t. replicate (nat t) (CHR ''|'')),
      errorMessage = (\<lambda>code m. m)\<rparr>"

definition emptyStore :: RedisClient where
  "emptyStore = \<lparr>connected = False, client = Map.empty\<rparr>"

section \<open>Properties\<close>

subsection \<open>Hexadecimal encoding\<close>

lemma hexDigit_in_digits: "hexDigit n \<in> set ''0123456789abcdef''"
proof -
  have "n mod 16 < length ''0123456789abcdef''" by simp
  then show ?thesis unfolding hexDigit_def by (rule nth_mem)
qed

lemma length_toHex: "length (toHex bs) = 2 * length bs"
  by (induction bs) (simp_all add: toHex_def hexByte_def)

lemma set_toHex: "set (toHex bs) \<subseteq> set ''0123456789abcdef''"
proof (induction bs)
  case Nil
  show ?case by (simp add: toHex_def)
next
  case (Cons b bs)
  have "set (hexByte b) \<subseteq> set ''0123456789abcdef''"
    using hexDigit_in_digits [of "unat b div 16"] hexDigit_in_digits [of "unat b mod 16"]
    unfolding hexByte_def by simp
  with Cons show ?case by (simp add: toHex_def)
qed

subsection \<open>Reading back what was written\<close>

lemma hexValue_hexDigit: "n < 16 \<Longrightarrow> hexValue (hexDigit n) = Some n"
proof -
  assume small: "n < 16"
  have digits: "list_all (\<lambda>k. hexValue (hexDigit k) = Some k)
                  [0, 1, 2, 3, 4, 5, 6, 7, 8, 9, 10, 11, 12, 13, 14, 15]"
    by (simp add: hexDigit_def hexValue_def)
  have "n \<in> set [0, 1, 2, 3, 4, 5, 6, 7, 8, 9, 10, 11, 12, 13, 14, 15]"
    using small by simp arith
  with digits show ?thesis
    unfolding list_all_iff by blast
qed

lemma unicodeEscape_hex:
  assumes "n < 32"
  shows "unicodeEscape (CHR ''0'') (CHR ''0'') (hexDigit (n div 16)) (hexDigit (n mod 16))
         = Some (char_of n)"
proof -
  have a: "n div 16 < 16" "n mod 16 < 16" "n div 16 < 8" using assms by auto
  have z: "hexValue (CHR ''0'') = Some 0" by (simp add: hexValue_def)
  show ?thesis
    unfolding unicodeEscape_def using a z
    by (simp add: hexValue_hexDigit)
qed

lemma parseChars_escapeChar:
  "parseChars (escapeChar c @ s) = consChar c (parseChars s)"
proof -
  consider "c = CHR 0x08" | "c = CHR 0x09" | "c = CHR 0x0A" | "c = CHR 0x0C" | "c = CHR 0x0D"
    | "c = CHR 0x22" | "c = CHR 0x5C"
    | "c \<notin> {CHR 0x08, CHR 0x09, CHR 0x0A, CHR 0x0C, CHR 0x0D, CHR 0x22, CHR 0x5C}"
      "(of_char c :: nat) < 0x20"
    | "c \<notin> {CHR 0x08, CHR 0x09, CHR 0x0A, CHR 0x0C, CHR 0x0D, CHR 0x22, CHR 0x5C}"
      "\<not> (of_char c :: nat) < 0x20"
    by blast
  then show ?thesis
  proof cases
    case 8
    have "unicodeEscape (CHR ''0'') (CHR ''0'') (hexDigit (of_char c div 16))
            (hexDigit (of_char c mod 16)) = Some (char_of (of_char c :: nat))"
      using 8(2) by (intro unicodeEscape_hex) simp
    then show ?thesis using 8 by (simp add: escapeChar_def)
  next
    case 9
    then show ?thesis by (simp add: escapeChar_def)
  qed (simp_all add: escapeChar_def unescape_def)
qed

lemma parseChars_quoted:
  "parseChars (concat (map escapeChar s) @ CHR 0x22 # r) = Some (s, r)"
  by (induction s) (simp_all add: parseChars_escapeChar consChar_def)

lemma parseString_quote: "parseString (QuoteJSONString s @ r) = Some (s, r)"
  by (simp add: parseString_def QuoteJSONString_def parseChars_quoted)

lemma parseEntry_stringify: "parseEntry (stringifyEntry e @ r) = Some (e, r)"
  by (simp add: parseEntry_def stringifyEntry_def expect_def parseString_quote)

lemma stringifyEntry_Cons: "\<exists>t. stringifyEntry e = CHR ''{'' # t"
  by (simp add: stringifyEntry_def)

lemma parseEntries_join:
  "es \<noteq> [] \<Longrightarrow>
   parseEntries (joinComma (map stringifyEntry es) @ CHR '']'' # r) = Some (es, r)"
proof (induction es)
  case Nil
  then show ?case by simp
next
  case (Cons e es)
  show ?case
  proof (cases es)
    case Nil
    then show ?thesis by (subst parseEntries.simps) (simp add: parseEntry_stringify)
  next
    case (Cons e' es')
    then have "parseEntries (joinComma (map stringifyEntry es) @ CHR '']'' # r) = Some (es, r)"
      using Cons.IH by simp
    then show ?thesis using Cons by (subst parseEntries.simps) (simp add: parseEntry_stringify)
  qed
qed

lemma parseHistory_join:
  "parseHistory (joinComma (map stringifyEntry es) @ CHR '']'' # r) = Some (es, r)"
proof (cases es)
  case Nil
  then show ?thesis by (simp add: parseHistory_def)
next
  case (Cons e es')
  obtain t where t: "stringifyEntry e = CHR ''{'' # t" using stringifyEntry_Cons by blast
  have "\<exists>u. joinComma (map stringifyEntry es) @ CHR '']'' # r = CHR ''{'' # u"
    using Cons t by (cases es') simp_all
  then obtain u where u: "joinComma (map stringifyEntry es) @ CHR '']'' # r = CHR ''{'' # u" ..
  have "parseHistory (joinComma (map stringifyEntry es) @ CHR '']'' # r)
        = parseEntries (joinComma (map stringifyEntry es) @ CHR '']'' # r)"
    unfolding u by (simp add: parseHistory_def)
  then show ?thesis using Cons parseEntries_join [of es r] by simp
qed

lemma JSON_parse_stringify: "JSON_parse (JSON_stringify c) = Some c"
  by (simp add: JSON_parse_def JSON_stringify_def expect_def parseString_quote parseHistory_join)

lemma JSON_stringify_nonempty: "JSON_stringify c \<noteq> []"
  by (simp add: JSON_stringify_def)

lemma JSON_stringify_inj: "JSON_stringify c = JSON_stringify c' \<Longrightarrow> c = c'"
  by (metis JSON_parse_stringify option.inject)

subsection \<open>The operations, equation by equation\<close>

lemma client_connect [simp]: "client (redisClient_connect r) = client r"
  by (simp add: redisClient_connect_def)

lemma connected_connect [simp]: "connected (redisClient_connect r) = True"
  by (simp add: redisClient_connect_def)

lemma connect_connect [simp]: "redisClient_connect (redisClient_connect r) = redisClient_connect r"
  by (simp add: redisClient_connect_def)

lemma getContext_absent:
  assumes "client r (getContextKey P d sid) = None \<or> client r (getContextKey P d sid) = Some []"
  shows "getContext P r d sid t = (Inr None, redisClient_connect r)"
  using assms by (auto simp: getContext_def redisClient_get_def Let_def)

lemma updateContext_absent:
  assumes "client r (getContextKey P d sid) = None \<or> client r (getContextKey P d sid) = Some []"
  shows "updateContext P r d sid c t1 t2 =
           (Inl (Error (''No context found for session '' @ sid @ '' in directory '' @ d)),
            redisClient_connect r)"
  using assms by (auto simp: updateContext_def redisClient_get_def Let_def)

lemma getContext_present:
  assumes "client r (getContextKey P d sid) = Some (JSON_stringify c)"
  shows "getContext P r d sid t =
           (Inr (Some (c\<lparr>metadata := (metadata c)\<lparr>lastAccessed := toISOString P t\<rparr>\<rparr>)),
            (redisClient_connect r)\<lparr>client := (client r)(getContextKey P d sid \<mapsto>
               JSON_stringify (c\<lparr>metadata := (metadata c)\<lparr>lastAccessed := toISOString P t\<rparr>\<rparr>))\<rparr>)"
  using assms
  by (simp add: getContext_def redisClient_get_def redisClient_set_def Let_def
      JSON_parse_stringify JSON_stringify_nonempty)

lemma updateContext_present:
  assumes "client r (getContextKey P d sid) = Some (JSON_stringify c)"
  shows "updateContext P r d sid body t1 t2 =
           (Inr (),
            (redisClient_connect r)\<lparr>client := (client r)(getContextKey P d sid \<mapsto>
               JSON_stringify
                 (c\<lparr>history := history c @ [\<lparr>timestamp = toISOString P t1, content = body\<rparr>],
                    metadata := (metadata c)\<lparr>lastAccessed := toISOString P t2\<rparr>\<rparr>))\<rparr>)"
  using assms
  by (simp add: updateContext_def redisClient_get_def redisClient_set_def Let_def
      JSON_parse_stringify JSON_stringify_nonempty)

lemma createSession_eq:
  "createSession P r d rnd t1 t2 =
     (generateSessionId rnd,
      (redisClient_connect r)\<lparr>client := (client r)(getContextKey P d (generateSessionId rnd) \<mapsto>
         JSON_stringify \<lparr>directory = d, history = [],
           metadata = \<lparr>createdAt = toISOString P t1, lastAccessed = toISOString P t2\<rparr>\<rparr>)\<rparr>)"
  by (simp add: createSession_def redisClient_set_def Let_def)

lemma endSession_eq:
  "endSession P r d sid =
     (redisClient_connect r)\<lparr>client := (client r)(getContextKey P d sid := None)\<rparr>"
  by (simp add: endSession_def redisClient_delete_def Let_def)


text \<open>For evaluating the stand-ins of \<open>testPlatform\<close>.\<close>

lemma replicate_unfold: "0 < n \<Longrightarrow> replicate n x = x # replicate (n - 1) x"
  by (cases n) simp_all

subsection \<open>What a run does at one key\<close>

lemma getContext_frame:
  "k \<noteq> getContextKey P d sid \<Longrightarrow> client (snd (getContext P r d sid t)) k = client r k"
  by (simp add: getContext_def redisClient_get_def redisClient_set_def Let_def
      split: option.splits)

lemma updateContext_frame:
  "k \<noteq> getContextKey P d sid \<Longrightarrow> client (snd (updateContext P r d sid c t1 t2)) k = client r k"
  by (simp add: updateContext_def redisClient_get_def redisClient_set_def Let_def
      split: option.splits)

lemma step_frame: "callKey P x \<noteq> k \<Longrightarrow> client (step P r x) k = client r k"
proof (cases x)
  case (CreateSession d rnd t1 t2)
  moreover assume "callKey P x \<noteq> k"
  ultimately show ?thesis by (auto simp: createSession_eq)
next
  case (GetContext d sid t)
  moreover assume "callKey P x \<noteq> k"
  ultimately show ?thesis using getContext_frame [of k P d sid r t] by auto
next
  case (UpdateContext d sid c t1 t2)
  moreover assume "callKey P x \<noteq> k"
  ultimately show ?thesis using updateContext_frame [of k P d sid r c t1 t2] by auto
next
  case (EndSession d sid)
  moreover assume "callKey P x \<noteq> k"
  ultimately show ?thesis by (auto simp: endSession_eq)
qed

lemma step_absent:
  assumes "client r k = None" and "isCreate x \<longrightarrow> callKey P x \<noteq> k"
  shows "client (step P r x) k = None"
proof (cases "callKey P x = k")
  case False
  then show ?thesis using assms(1) by (simp add: step_frame)
next
  case True
  show ?thesis
  proof (cases x)
    case (CreateSession d rnd t1 t2)
    then show ?thesis using True assms(2) by simp
  next
    case (GetContext d sid t)
    then show ?thesis using True assms(1) by (simp add: getContext_absent)
  next
    case (UpdateContext d sid c t1 t2)
    then show ?thesis using True assms(1) by (simp add: updateContext_absent)
  next
    case (EndSession d sid)
    then show ?thesis using True by (simp add: endSession_eq)
  qed
qed

lemma run_absent:
  "client r k = None \<Longrightarrow> \<forall>x \<in> set calls. isCreate x \<longrightarrow> callKey P x \<noteq> k
     \<Longrightarrow> client (run P r calls) k = None"
proof (induction calls arbitrary: r)
  case Nil
  then show ?case by simp
next
  case (Cons x xs)
  have "client (step P r x) k = None"
    using Cons.prems by (intro step_absent) simp_all
  then show ?case using Cons.IH [of "step P r x"] Cons.prems(2) by simp
qed

lemma step_present:
  assumes "client r k = Some (JSON_stringify c)"
    and "callKey P x = k" and "\<not> isCreate x" and "\<not> isEnd x"
  shows "\<exists>c'. client (step P r x) k = Some (JSON_stringify c')
           \<and> history c' = history c @ pushed P k x
           \<and> directory c' = directory c
           \<and> createdAt (metadata c') = createdAt (metadata c)"
proof (cases x)
  case (CreateSession d rnd t1 t2)
  then show ?thesis using assms(3) by simp
next
  case (GetContext d sid t)
  then have "client r (getContextKey P d sid) = Some (JSON_stringify c)"
    using assms(1) assms(2) by simp
  then show ?thesis using GetContext assms(2) by (auto simp: getContext_present)
next
  case (UpdateContext d sid body t1 t2)
  then have "client r (getContextKey P d sid) = Some (JSON_stringify c)"
    using assms(1) assms(2) by simp
  then show ?thesis using UpdateContext assms(2) by (auto simp: updateContext_present)
next
  case (EndSession d sid)
  then show ?thesis using assms(4) by simp
qed

lemma step_create_same_key:
  assumes "callKey P x = k" and "isCreate x"
  shows "\<exists>c'. client (step P r x) k = Some (JSON_stringify c') \<and> history c' = []"
proof -
  from assms(2) obtain d rnd t1 t2 where x: "x = CreateSession d rnd t1 t2"
    by (cases x) auto
  let ?c = "\<lparr>directory = d, history = [],
              metadata = \<lparr>createdAt = toISOString P t1, lastAccessed = toISOString P t2\<rparr>\<rparr>"
  have "client (step P r x) k = Some (JSON_stringify ?c)"
    using x assms(1) by (auto simp: createSession_eq)
  then show ?thesis by (intro exI [of _ ?c]) simp
qed

lemma pushed_other: "callKey P x \<noteq> k \<Longrightarrow> pushed P k x = []"
  by (cases x) auto

lemma run_history:
  assumes "client r k = Some (JSON_stringify c)"
    and "\<forall>x \<in> set calls. isCreate x \<longrightarrow> callKey P x \<noteq> k"
  shows "if \<exists>x \<in> set calls. isEnd x \<and> callKey P x = k
         then client (run P r calls) k = None
         else \<exists>c'. client (run P r calls) k = Some (JSON_stringify c')
                \<and> history c' = history c @ concat (map (pushed P k) calls)
                \<and> directory c' = directory c
                \<and> createdAt (metadata c') = createdAt (metadata c)"
  using assms
proof (induction calls arbitrary: r c)
  case Nil
  then show ?case by auto
next
  case (Cons x xs)
  have fresh: "\<forall>y \<in> set xs. isCreate y \<longrightarrow> callKey P y \<noteq> k"
    using Cons.prems(2) by simp
  show ?case
  proof (cases "callKey P x = k")
    case False
    then have "client (step P r x) k = Some (JSON_stringify c)"
      using Cons.prems(1) by (simp add: step_frame)
    from Cons.IH [OF this fresh] False show ?thesis
      by (simp add: pushed_other)
  next
    case True
    then have nc: "\<not> isCreate x" using Cons.prems(2) by auto
    show ?thesis
    proof (cases "isEnd x")
      case True
      then obtain d sid where x: "x = EndSession d sid" by (cases x) auto
      then have "client (step P r x) k = None"
        using \<open>callKey P x = k\<close> by (simp add: endSession_eq)
      then have "client (run P (step P r x) xs) k = None"
        using fresh by (rule run_absent)
      then show ?thesis using True \<open>callKey P x = k\<close> by auto
    next
      case False
      from step_present [OF Cons.prems(1) True nc False]
      obtain c1 where c1: "client (step P r x) k = Some (JSON_stringify c1)"
        "history c1 = history c @ pushed P k x" "directory c1 = directory c"
        "createdAt (metadata c1) = createdAt (metadata c)"
        by blast
      from Cons.IH [OF c1(1) fresh] c1(2) c1(3) c1(4) False show ?thesis
        by (auto split: if_splits)
    qed
  qed
qed

lemma pushed_contents_in_order:
  "length (pushed P k x) \<le> 1"
  by (cases x) simp_all

subsection \<open>Under a clock that does not run backwards, the store stays timely\<close>

lemma chronological_later:
  "chronological P now c \<Longrightarrow> now \<le> now' \<Longrightarrow> chronological P now' c"
proof -
  assume c: "chronological P now c" and le: "now \<le> now'"
  then obtain t0 ts where a: "createdAt (metadata c) = toISOString P t0"
    "map timestamp (history c) = map (toISOString P) ts" "sorted (t0 # ts @ [now])"
    unfolding chronological_def by blast
  have "sorted (t0 # ts @ [now'])"
    using a(3) le by (auto simp: sorted_append)
  with a(1) a(2) show ?thesis unfolding chronological_def by blast
qed

lemma chronological_touch:
  "chronological P now c \<Longrightarrow>
   chronological P now (c\<lparr>metadata := (metadata c)\<lparr>lastAccessed := x\<rparr>\<rparr>)"
  by (simp add: chronological_def)

lemma chronological_push:
  assumes "chronological P now c" and "now \<le> t1" and "t1 \<le> t2"
  shows "chronological P t2
           (c\<lparr>history := history c @ [\<lparr>timestamp = toISOString P t1, content = body\<rparr>],
              metadata := (metadata c)\<lparr>lastAccessed := x\<rparr>\<rparr>)"
proof -
  from assms(1) obtain t0 ts where a: "createdAt (metadata c) = toISOString P t0"
    "map timestamp (history c) = map (toISOString P) ts" "sorted (t0 # ts @ [now])"
    unfolding chronological_def by blast
  have s: "sorted (t0 # (ts @ [t1]) @ [t2])"
    using a(3) assms(2) assms(3) by (auto simp: sorted_append)
  have m: "map timestamp (history c @ [\<lparr>timestamp = toISOString P t1, content = body\<rparr>])
           = map (toISOString P) (ts @ [t1])"
    using a(2) by simp
  show ?thesis
    unfolding chronological_def
    using a(1) m s by (intro exI [of _ t0] exI [of _ "ts @ [t1]"]) simp
qed

lemma chronological_new:
  "t1 \<le> t2 \<Longrightarrow>
   chronological P t2 \<lparr>directory = d, history = [],
      metadata = \<lparr>createdAt = toISOString P t1, lastAccessed = x\<rparr>\<rparr>"
  unfolding chronological_def
  by (intro exI [of _ t1] exI [of _ "[]"]) simp

lemma timely_empty: "timely P now emptyStore"
  by (simp add: timely_def emptyStore_def)

lemma step_origin:
  assumes "client (step P r x) k = Some s"
  shows "client r k = Some s
       \<or> (\<exists>d rnd t1 t2. x = CreateSession d rnd t1 t2
            \<and> s = JSON_stringify \<lparr>directory = d, history = [],
                  metadata = \<lparr>createdAt = toISOString P t1, lastAccessed = toISOString P t2\<rparr>\<rparr>)
       \<or> (\<exists>d sid t s0 c0. x = GetContext d sid t
            \<and> client r k = Some s0 \<and> JSON_parse s0 = Some c0
            \<and> s = JSON_stringify (c0\<lparr>metadata := (metadata c0)\<lparr>lastAccessed := toISOString P t\<rparr>\<rparr>))
       \<or> (\<exists>d sid body t1 t2 s0 c0. x = UpdateContext d sid body t1 t2
            \<and> client r k = Some s0 \<and> JSON_parse s0 = Some c0
            \<and> s = JSON_stringify
                  (c0\<lparr>history := history c0 @ [\<lparr>timestamp = toISOString P t1, content = body\<rparr>],
                      metadata := (metadata c0)\<lparr>lastAccessed := toISOString P t2\<rparr>\<rparr>))"
proof (cases x)
  case (CreateSession d rnd t1 t2)
  then show ?thesis using assms
    by (auto simp: createSession_eq split: if_splits)
next
  case (GetContext d sid t)
  then show ?thesis using assms
    by (auto simp: getContext_def redisClient_get_def redisClient_set_def Let_def
        split: option.splits if_splits)
next
  case (UpdateContext d sid body t1 t2)
  then show ?thesis using assms
    by (auto simp: updateContext_def redisClient_get_def redisClient_set_def Let_def
        split: option.splits if_splits)
next
  case (EndSession d sid)
  then show ?thesis using assms
    by (auto simp: endSession_eq split: if_splits)
qed

lemma step_timely:
  assumes "timely P now r" and "sorted (now # readings x)"
  shows "timely P (last (now # readings x)) (step P r x)"
  unfolding timely_def
proof (intro allI impI)
  fix k s c
  assume h: "client (step P r x) k = Some s \<and> JSON_parse s = Some c"
  have old: "chronological P now c0" if "client r k = Some s0" "JSON_parse s0 = Some c0" for s0 c0
    using assms(1) that unfolding timely_def by blast
  have later: "now \<le> last (now # readings x)"
    using assms(2) by (cases x) auto
  from step_origin [of P r x k s] h
  consider (same) "client r k = Some s"
    | (create) d rnd t1 t2 where "x = CreateSession d rnd t1 t2"
        "s = JSON_stringify \<lparr>directory = d, history = [],
               metadata = \<lparr>createdAt = toISOString P t1, lastAccessed = toISOString P t2\<rparr>\<rparr>"
    | (get) d sid t s0 c0 where "x = GetContext d sid t"
        "client r k = Some s0" "JSON_parse s0 = Some c0"
        "s = JSON_stringify (c0\<lparr>metadata := (metadata c0)\<lparr>lastAccessed := toISOString P t\<rparr>\<rparr>)"
    | (update) d sid body t1 t2 s0 c0 where "x = UpdateContext d sid body t1 t2"
        "client r k = Some s0" "JSON_parse s0 = Some c0"
        "s = JSON_stringify
               (c0\<lparr>history := history c0 @ [\<lparr>timestamp = toISOString P t1, content = body\<rparr>],
                   metadata := (metadata c0)\<lparr>lastAccessed := toISOString P t2\<rparr>\<rparr>)"
    by blast
  then show "chronological P (last (now # readings x)) c"
  proof cases
    case same
    then show ?thesis using old h later chronological_later by blast
  next
    case create
    then have "c = \<lparr>directory = d, history = [],
               metadata = \<lparr>createdAt = toISOString P t1, lastAccessed = toISOString P t2\<rparr>\<rparr>"
      using h by (simp add: JSON_parse_stringify)
    moreover have "t1 \<le> t2" using assms(2) create(1) by simp
    ultimately show ?thesis using create(1) by (simp add: chronological_new)
  next
    case get
    then have "c = c0\<lparr>metadata := (metadata c0)\<lparr>lastAccessed := toISOString P t\<rparr>\<rparr>"
      using h by (simp add: JSON_parse_stringify)
    then show ?thesis
      using chronological_touch [OF old [OF get(2) get(3)], of "toISOString P t"] later
        chronological_later by blast
  next
    case update
    then have "c = c0\<lparr>history := history c0 @ [\<lparr>timestamp = toISOString P t1, content = body\<rparr>],
                   metadata := (metadata c0)\<lparr>lastAccessed := toISOString P t2\<rparr>\<rparr>"
      using h by (simp add: JSON_parse_stringify)
    moreover have "now \<le> t1" "t1 \<le> t2" using assms(2) update(1) by simp_all
    ultimately show ?thesis
      using chronological_push [OF old [OF update(2) update(3)]] update(1) by simp
  qed
qed

lemma last_readings:
  "last (last (now # readings x) # ys) = last (now # readings x @ ys)"
  by (cases ys) simp_all

lemma run_timely:
  "timely P now r \<Longrightarrow> sorted (now # concat (map readings calls))
     \<Longrightarrow> timely P (last (now # concat (map readings calls))) (run P r calls)"
proof (induction calls arbitrary: now r)
  case Nil
  then show ?case by simp
next
  case (Cons x xs)
  have s1: "sorted (now # readings x)"
    using Cons.prems(2) by (auto simp: sorted_append)
  have s2: "sorted (last (now # readings x) # concat (map readings xs))"
    using Cons.prems(2) by (cases "readings x" rule: rev_cases) (auto simp: sorted_append)
  have "timely P (last (last (now # readings x) # concat (map readings xs)))
          (run P (step P r x) xs)"
    using Cons.IH [OF step_timely [OF Cons.prems(1) s1] s2] .
  then show ?case by (simp add: last_readings del: last.simps)
qed


subsection \<open>The dispatcher, case by case\<close>

text \<open>
  The \<^verbatim>\<open>switch\<close> at each of the four tool names and at any other name. The argument checks
  stand before every call of the registry: when the \<^verbatim>\<open>switch\<close> throws an \<^verbatim>\<open>McpError\<close>, the
  adapter is as it was (\<open>toolSwitch_checks_first\<close>).
\<close>

lemma getContext_no_McpError: "fst (getContext P r d sid t) \<noteq> Inl (McpError code m)"
  by (simp add: getContext_def redisClient_get_def Let_def split: option.splits)

lemma updateContext_no_McpError:
  "fst (updateContext P r d sid body t1 t2) \<noteq> Inl (McpError code m)"
  by (simp add: updateContext_def redisClient_get_def Let_def split: option.splits)

lemma toolSwitch_create:
  "toolSwitch P r ''create_session'' args rnd t1 t2 =
     (if \<not> hasProperty ''directory'' args \<or> typeof (getProperty args ''directory'') \<noteq> ''string''
      then (Inl (McpError InvalidParams ''Invalid directory parameter''), r)
      else (Inr (TextContent (''{\"sessionId\":''
                   @ QuoteJSONString (fst (createSession P r (stringOf (getProperty args ''directory''))
                                             rnd t1 t2)) @ ''}'')),
            snd (createSession P r (stringOf (getProperty args ''directory'')) rnd t1 t2)))"
  by (simp add: toolSwitch_def split: prod.splits)

lemma toolSwitch_get:
  "toolSwitch P r ''get_context'' args rnd t1 t2 =
     (if \<not> hasProperty ''directory'' args \<or> typeof (getProperty args ''directory'') \<noteq> ''string''
         \<or> \<not> hasProperty ''sessionId'' args \<or> typeof (getProperty args ''sessionId'') \<noteq> ''string''
      then (Inl (McpError InvalidParams ''Invalid directory or sessionId parameter''), r)
      else
        (case getContext P r (stringOf (getProperty args ''directory''))
                (stringOf (getProperty args ''sessionId'')) t1 of
           (Inl e, r1) \<Rightarrow> (Inl e, r1)
         | (Inr context, r1) \<Rightarrow>
             (Inr (TextContent (case context of None \<Rightarrow> ''null'' | Some c \<Rightarrow> JSON_stringify c)),
              r1)))"
  by (simp add: toolSwitch_def)

lemma toolSwitch_update:
  "toolSwitch P r ''update_context'' args rnd t1 t2 =
     (if \<not> hasProperty ''directory'' args \<or> typeof (getProperty args ''directory'') \<noteq> ''string''
         \<or> \<not> hasProperty ''sessionId'' args \<or> typeof (getProperty args ''sessionId'') \<noteq> ''string''
         \<or> \<not> hasProperty ''content'' args \<or> typeof (getProperty args ''content'') \<noteq> ''string''
      then (Inl (McpError InvalidParams ''Invalid directory, sessionId, or content parameter''), r)
      else
        (case updateContext P r (stringOf (getProperty args ''directory''))
                (stringOf (getProperty args ''sessionId''))
                (stringOf (getProperty args ''content'')) t1 t2 of
           (Inl e, r1) \<Rightarrow> (Inl e, r1)
         | (Inr u, r1) \<Rightarrow> (Inr (TextContent ''{\"success\":true}''), r1)))"
  by (simp add: toolSwitch_def)

lemma toolSwitch_end:
  "toolSwitch P r ''end_session'' args rnd t1 t2 =
     (if \<not> hasProperty ''directory'' args \<or> typeof (getProperty args ''directory'') \<noteq> ''string''
         \<or> \<not> hasProperty ''sessionId'' args \<or> typeof (getProperty args ''sessionId'') \<noteq> ''string''
      then (Inl (McpError InvalidParams ''Invalid directory or sessionId parameter''), r)
      else (Inr (TextContent ''{\"success\":true}''),
            endSession P r (stringOf (getProperty args ''directory''))
              (stringOf (getProperty args ''sessionId''))))"
  by (simp add: toolSwitch_def)

lemma toolSwitch_other:
  assumes "name \<noteq> ''create_session''" and "name \<noteq> ''get_context''"
    and "name \<noteq> ''update_context''" and "name \<noteq> ''end_session''"
  shows "toolSwitch P r name args rnd t1 t2 =
           (Inl (McpError MethodNotFound (''Unknown tool: '' @ name)), r)"
  unfolding toolSwitch_def by (simp only: assms if_False)

lemma toolSwitch_checks_first:
  assumes "fst (toolSwitch P r name args rnd t1 t2) = Inl (McpError code m)"
  shows "snd (toolSwitch P r name args rnd t1 t2) = r"
proof -
  consider (creating) "name = ''create_session''" | (getting) "name = ''get_context''"
    | (updating) "name = ''update_context''" | (ending) "name = ''end_session''"
    | (other) "name \<noteq> ''create_session''" "name \<noteq> ''get_context''"
        "name \<noteq> ''update_context''" "name \<noteq> ''end_session''"
    by blast
  then show ?thesis
  proof cases
    case creating
    then show ?thesis using assms
      by (auto simp: toolSwitch_create split: if_splits)
  next
    case getting
    then show ?thesis
      using assms getContext_no_McpError
        [of P r "stringOf (getProperty args ''directory'')"
           "stringOf (getProperty args ''sessionId'')" t1 code m]
      by (auto simp: toolSwitch_get split: if_splits prod.splits sum.splits)
  next
    case updating
    then show ?thesis
      using assms updateContext_no_McpError
        [of P r "stringOf (getProperty args ''directory'')"
           "stringOf (getProperty args ''sessionId'')"
           "stringOf (getProperty args ''content'')" t1 t2 code m]
      by (auto simp: toolSwitch_update split: if_splits prod.splits sum.splits)
  next
    case ending
    then show ?thesis using assms
      by (auto simp: toolSwitch_end split: if_splits)
  next
    case other
    then show ?thesis by (simp add: toolSwitch_other)
  qed
qed


section \<open>The claims\<close>

text \<open>
  In the examples the platform is \<open>testPlatform\<close>, the store starts as \<open>emptyStore\<close>, the
  directory is \<^verbatim>\<open>/proj\<close> and \<^verbatim>\<open>randomBytes\<close> returns the two bytes \<^verbatim>\<open>a1 b2\<close>.
\<close>

text \<open>
  C1. \<^verbatim>\<open>createSession(d)\<close> returns the id it generated and stores, under the key of \<open>d\<close> and
  that id, a record with empty history, directory \<open>d\<close>, and \<^verbatim>\<open>createdAt\<close> and \<^verbatim>\<open>lastAccessed\<close>
  set from the two clock readings of the creation. A \<^verbatim>\<open>getContext(d, id)\<close> that follows
  returns a present record with empty history, directory \<open>d\<close> and the \<^verbatim>\<open>createdAt\<close> of the
  creation; its \<^verbatim>\<open>lastAccessed\<close> is the reading that \<^verbatim>\<open>getContext\<close> takes itself.
\<close>

theorem createSession_then_getContext:
  "(case createSession P r d rnd t1 t2 of
      (sid, r1) \<Rightarrow>
        sid = generateSessionId rnd
        \<and> client r1 (getContextKey P d sid) =
            Some (JSON_stringify
              \<lparr>directory = d, history = [],
               metadata = \<lparr>createdAt = toISOString P t1, lastAccessed = toISOString P t2\<rparr>\<rparr>)
        \<and> fst (getContext P r1 d sid t3) =
            Inr (Some
              \<lparr>directory = d, history = [],
               metadata = \<lparr>createdAt = toISOString P t1, lastAccessed = toISOString P t3\<rparr>\<rparr>))"
  by (simp add: createSession_eq getContext_present)

text \<open>
  The \<^verbatim>\<open>lastAccessed\<close> of the returned record is not the one set at creation: a session
  created when the clock reads 5 and read when it reads 9 comes back with the
  \<^verbatim>\<open>lastAccessed\<close> of 9, while its \<^verbatim>\<open>createdAt\<close> is that of 5.
\<close>

theorem getContext_returns_refreshed_lastAccessed:
  "fst (getContext testPlatform
          (snd (createSession testPlatform emptyStore ''/proj'' [0xa1, 0xb2] 5 5))
          ''/proj'' (generateSessionId [0xa1, 0xb2]) 9)
     = Inr (Some \<lparr>directory = ''/proj'', history = [],
                  metadata = \<lparr>createdAt = ''|||||'', lastAccessed = ''|||||||||''\<rparr>\<rparr>)
   \<and> toISOString testPlatform 5 = ''|||||''
   \<and> ''|||||||||'' \<noteq> ''|||||''"
  by (simp add: createSession_eq getContext_present testPlatform_def replicate_unfold)




text \<open>
  C3. When the key of \<open>(d, sid)\<close> is absent from the store, \<^verbatim>\<open>updateContext(d, sid, c)\<close> throws
  an \<^verbatim>\<open>Error\<close> with the message \<^verbatim>\<open>No context found for session ... in directory ...\<close>. That is
  not an \<^verbatim>\<open>McpError\<close>, the kind the dispatcher throws for invalid parameters. The store holds
  after the call what it held before; the adapter has only connected.
\<close>

theorem updateContext_missing_session:
  assumes "client r (getContextKey P d sid) = None"
  shows "updateContext P r d sid c t1 t2 =
           (Inl (Error (''No context found for session '' @ sid @ '' in directory '' @ d)),
            redisClient_connect r)
         \<and> client (snd (updateContext P r d sid c t1 t2)) = client r
         \<and> (\<forall>code m. fst (updateContext P r d sid c t1 t2) \<noteq> Inl (McpError code m))"
  using assms by (simp add: updateContext_absent)

theorem updateContext_missing_session_witness:
  "client emptyStore (getContextKey testPlatform ''/proj'' ''a1b2'') = None
   \<and> updateContext testPlatform emptyStore ''/proj'' ''a1b2'' ''hello'' 1 2 =
       (Inl (Error ''No context found for session a1b2 in directory /proj''),
        \<lparr>connected = True, client = Map.empty\<rparr>)"
proof -
  have h: "client emptyStore (getContextKey testPlatform ''/proj'' ''a1b2'') = None"
    by (simp add: emptyStore_def)
  show ?thesis
    using h updateContext_missing_session [OF h, of "''hello''" 1 2]
    by (simp add: emptyStore_def redisClient_connect_def)
qed

text \<open>
  C4. For every directory \<open>d\<close> and session id \<open>s\<close> the storage key is the text
  \<^verbatim>\<open>cline:context:\<close>, then the first eight characters of the hexadecimal SHA-256 digest of
  \<open>d\<close>, then a colon, then \<open>s\<close>. The key is a function of the directory and the session
  id alone: neither the store nor the clock nor the random source is an argument of
  \<open>getContextKey\<close>, and of the runtime it uses the digest only. When the digest has the
  thirty-two bytes of SHA-256, the hash part is exactly eight lower-case hexadecimal
  digits, those of the first four bytes.
\<close>

theorem getContextKey_shape:
  "getContextKey P d s = ''cline:context:'' @ take 8 (toHex (sha256 P d)) @ '':'' @ s
   \<and> getContextKey (P\<lparr>toISOString := f, errorMessage := g\<rparr>) d s = getContextKey P d s
   \<and> (length (sha256 P d) = 32 \<longrightarrow>
        length (take 8 (toHex (sha256 P d))) = 8
        \<and> set (take 8 (toHex (sha256 P d))) \<subseteq> set ''0123456789abcdef''
        \<and> take 8 (toHex (sha256 P d)) = toHex (take 4 (sha256 P d)))"
proof -
  have key: "getContextKey P d s = ''cline:context:'' @ take 8 (toHex (sha256 P d)) @ '':'' @ s"
    by (simp add: getContextKey_def hashDirectory_def CONTEXT_PREFIX_def)
  have same: "getContextKey (P\<lparr>toISOString := f, errorMessage := g\<rparr>) d s = getContextKey P d s"
    by (simp add: getContextKey_def hashDirectory_def)
  have sub: "set (take 8 (toHex (sha256 P d))) \<subseteq> set ''0123456789abcdef''"
    using set_take_subset [of 8 "toHex (sha256 P d)"] set_toHex [of "sha256 P d"]
    by (rule subset_trans)
  have pre: "take (2 * n) (toHex bs) = toHex (take n bs)" for n bs
  proof (induction bs arbitrary: n)
    case Nil
    show ?case by (simp add: toHex_def)
  next
    case (Cons b bs)
    show ?case
    proof (cases n)
      case 0
      then show ?thesis by (simp add: toHex_def)
    next
      case (Suc m)
      have "take (2 * m) (toHex bs) = toHex (take m bs)" by (rule Cons.IH)
      then show ?thesis using Suc by (simp add: toHex_def hexByte_def)
    qed
  qed
  have four: "take 8 (toHex (sha256 P d)) = toHex (take 4 (sha256 P d))"
    using pre [of 4 "sha256 P d"] by simp
  show ?thesis using key same sub four by (simp add: length_toHex)
qed

theorem getContextKey_shape_witness:
  "length (sha256 testPlatform ''/proj'') = 32
   \<and> getContextKey testPlatform ''/proj'' ''a1b2'' = ''cline:context:05050505:a1b2''"
  using getContextKey_shape [of testPlatform "''/proj''" "''a1b2''"]
  by (simp add: testPlatform_def toHex_def hexByte_def hexDigit_def replicate_unfold)

text \<open>
  C5. For a session stored under the key of \<open>(d, sid)\<close>, \<^verbatim>\<open>getContext(d, sid)\<close> returns the
  stored record with \<^verbatim>\<open>lastAccessed\<close> set to the reading \<open>t\<close> of the call, and the store
  differs afterwards only at that key, where it holds the text of the returned record:
  history, directory and \<^verbatim>\<open>createdAt\<close> are those read. A second \<^verbatim>\<open>getContext\<close> at the reading
  \<open>t'\<close> returns the same history, directory and \<^verbatim>\<open>createdAt\<close> with the \<^verbatim>\<open>lastAccessed\<close> of \<open>t'\<close>.
  That one is not before the first call's under a condition on the clock, which the code
  does not check: the clock has not run backwards between the two calls (\<open>t \<le> t'\<close>).
\<close>

theorem getContext_touches_lastAccessed_only:
  assumes "client r (getContextKey P d sid) = Some (JSON_stringify c)"
    and "t \<le> t'"
  shows "(let first = c\<lparr>metadata := (metadata c)\<lparr>lastAccessed := toISOString P t\<rparr>\<rparr>;
              second = c\<lparr>metadata := (metadata c)\<lparr>lastAccessed := toISOString P t'\<rparr>\<rparr>;
              (res, r1) = getContext P r d sid t
          in res = Inr (Some first)
             \<and> client r1 = (client r)(getContextKey P d sid \<mapsto> JSON_stringify first)
             \<and> history first = history c \<and> directory first = directory c
             \<and> createdAt (metadata first) = createdAt (metadata c)
             \<and> fst (getContext P r1 d sid t') = Inr (Some second)
             \<and> history second = history c
             \<and> lastAccessed (metadata first) = toISOString P t
             \<and> lastAccessed (metadata second) = toISOString P t'
             \<and> t \<le> t')"
  using assms by (simp add: getContext_present Let_def)

theorem getContext_touches_lastAccessed_only_witness:
  "client (snd (createSession testPlatform emptyStore ''/proj'' [0xa1, 0xb2] 1 1))
     (getContextKey testPlatform ''/proj'' (generateSessionId [0xa1, 0xb2]))
     = Some (JSON_stringify
         \<lparr>directory = ''/proj'', history = [],
          metadata = \<lparr>createdAt = toISOString testPlatform 1,
                      lastAccessed = toISOString testPlatform 1\<rparr>\<rparr>)
   \<and> (2 :: int) \<le> 3
   \<and> fst (getContext testPlatform
          (snd (createSession testPlatform emptyStore ''/proj'' [0xa1, 0xb2] 1 1))
          ''/proj'' (generateSessionId [0xa1, 0xb2]) 2)
       = Inr (Some
           \<lparr>directory = ''/proj'', history = [],
            metadata = \<lparr>createdAt = toISOString testPlatform 1,
                        lastAccessed = toISOString testPlatform 2\<rparr>\<rparr>)
   \<and> fst (getContext testPlatform
          (snd (getContext testPlatform
                  (snd (createSession testPlatform emptyStore ''/proj'' [0xa1, 0xb2] 1 1))
                  ''/proj'' (generateSessionId [0xa1, 0xb2]) 2))
          ''/proj'' (generateSessionId [0xa1, 0xb2]) 3)
       = Inr (Some
           \<lparr>directory = ''/proj'', history = [],
            metadata = \<lparr>createdAt = toISOString testPlatform 1,
                        lastAccessed = toISOString testPlatform 3\<rparr>\<rparr>)"
proof -
  let ?r = "snd (createSession testPlatform emptyStore ''/proj'' [0xa1, 0xb2] 1 1)"
  let ?c = "\<lparr>directory = ''/proj'', history = [],
              metadata = \<lparr>createdAt = toISOString testPlatform 1,
                          lastAccessed = toISOString testPlatform 1\<rparr>\<rparr>"
  have stored: "client ?r (getContextKey testPlatform ''/proj'' (generateSessionId [0xa1, 0xb2]))
                  = Some (JSON_stringify ?c)"
    by (simp add: createSession_eq)
  have clock: "(2 :: int) \<le> 3" by simp
  show ?thesis
    using stored clock getContext_touches_lastAccessed_only [OF stored clock]
    by (simp add: Let_def split: prod.splits)
qed

text \<open>
  The clock condition is needed here too. \<^verbatim>\<open>getContext\<close> writes the reading it takes without
  comparing it with the stored \<^verbatim>\<open>lastAccessed\<close>: of two successive reads of one session, the
  first when the clock reads 9 and the second when it reads 4, the second returns the
  \<^verbatim>\<open>lastAccessed\<close> of 4, before the first's of 9.
\<close>

theorem getContext_lastAccessed_can_decrease:
  "fst (getContext testPlatform
          (snd (createSession testPlatform emptyStore ''/proj'' [0xa1, 0xb2] 1 1))
          ''/proj'' (generateSessionId [0xa1, 0xb2]) 9)
     = Inr (Some \<lparr>directory = ''/proj'', history = [],
                  metadata = \<lparr>createdAt = ''|'', lastAccessed = ''|||||||||''\<rparr>\<rparr>)
   \<and> fst (getContext testPlatform
          (snd (getContext testPlatform
                  (snd (createSession testPlatform emptyStore ''/proj'' [0xa1, 0xb2] 1 1))
                  ''/proj'' (generateSessionId [0xa1, 0xb2]) 9))
          ''/proj'' (generateSessionId [0xa1, 0xb2]) 4)
     = Inr (Some \<lparr>directory = ''/proj'', history = [],
                  metadata = \<lparr>createdAt = ''|'', lastAccessed = ''||||''\<rparr>\<rparr>)
   \<and> toISOString testPlatform 9 = ''|||||||||''
   \<and> toISOString testPlatform 4 = ''||||''
   \<and> (4 :: int) < 9"
  by (simp add: createSession_eq getContext_present testPlatform_def replicate_unfold)

text \<open>
  C6. What one operation, and what a run of operations, does to the history stored under
  a key \<open>k\<close> that holds a session. After one operation the key is removed when the
  operation is \<^verbatim>\<open>endSession\<close> on \<open>k\<close>; it holds a new record with empty history when the
  operation is a \<^verbatim>\<open>createSession\<close> whose generated key is \<open>k\<close>; in every other case it holds
  a record whose history is the history before, followed by what the operation pushed:
  nothing, or the one entry of an \<^verbatim>\<open>updateContext\<close> on \<open>k\<close>. Over a run in which no
  \<^verbatim>\<open>createSession\<close> generates \<open>k\<close> and no \<^verbatim>\<open>endSession\<close> addresses \<open>k\<close>, the history at the end is
  the history at the start followed by the entries the updates on \<open>k\<close> pushed, in the order
  of the calls; and when the store was timely and the readings of the run do not decrease,
  the record at the end is chronological: the timestamps along its history are the texts
  of readings that do not decrease.
\<close>

theorem history_after_an_operation:
  assumes "client r k = Some (JSON_stringify c)"
  shows "(if callKey P x = k \<and> isEnd x then client (step P r x) k = None
          else if callKey P x = k \<and> isCreate x
            then \<exists>c'. client (step P r x) k = Some (JSON_stringify c') \<and> history c' = []
          else \<exists>c'. client (step P r x) k = Some (JSON_stringify c')
                 \<and> history c' = history c @ pushed P k x
                 \<and> directory c' = directory c
                 \<and> createdAt (metadata c') = createdAt (metadata c))
         \<and> length (pushed P k x) \<le> 1
         \<and> ((\<forall>y \<in> set calls. isCreate y \<longrightarrow> callKey P y \<noteq> k)
               \<and> (\<forall>y \<in> set calls. isEnd y \<longrightarrow> callKey P y \<noteq> k)
             \<longrightarrow> (\<exists>c'. client (run P r calls) k = Some (JSON_stringify c')
                   \<and> history c' = history c @ concat (map (pushed P k) calls)
                   \<and> directory c' = directory c
                   \<and> createdAt (metadata c') = createdAt (metadata c)
                   \<and> (timely P now r \<and> sorted (now # concat (map readings calls))
                        \<longrightarrow> chronological P (last (now # concat (map readings calls))) c')))"
proof -
  have one: "if callKey P x = k \<and> isEnd x then client (step P r x) k = None
          else if callKey P x = k \<and> isCreate x
            then \<exists>c'. client (step P r x) k = Some (JSON_stringify c') \<and> history c' = []
          else \<exists>c'. client (step P r x) k = Some (JSON_stringify c')
                 \<and> history c' = history c @ pushed P k x
                 \<and> directory c' = directory c
                 \<and> createdAt (metadata c') = createdAt (metadata c)"
  proof (cases "callKey P x = k")
    case False
    then have "client (step P r x) k = Some (JSON_stringify c)"
      using assms by (simp add: step_frame)
    then show ?thesis using False by (auto simp: pushed_other)
  next
    case key: True
    show ?thesis
    proof (cases "isEnd x")
      case True
      then obtain d sid where "x = EndSession d sid" by (cases x) auto
      then show ?thesis using key by (simp add: endSession_eq)
    next
      case ne: False
      show ?thesis
      proof (cases "isCreate x")
        case True
        then show ?thesis using key ne step_create_same_key [OF key True, of r] by simp
      next
        case False
        then show ?thesis using key ne step_present [OF assms key False ne] by simp
      qed
    qed
  qed
  have many: "\<exists>c'. client (run P r calls) k = Some (JSON_stringify c')
                   \<and> history c' = history c @ concat (map (pushed P k) calls)
                   \<and> directory c' = directory c
                   \<and> createdAt (metadata c') = createdAt (metadata c)
                   \<and> (timely P now r \<and> sorted (now # concat (map readings calls))
                        \<longrightarrow> chronological P (last (now # concat (map readings calls))) c')"
    if fresh: "\<forall>y \<in> set calls. isCreate y \<longrightarrow> callKey P y \<noteq> k"
      and alive: "\<forall>y \<in> set calls. isEnd y \<longrightarrow> callKey P y \<noteq> k"
  proof -
    have "\<not> (\<exists>y \<in> set calls. isEnd y \<and> callKey P y = k)" using alive by blast
    then obtain c' where c': "client (run P r calls) k = Some (JSON_stringify c')"
      "history c' = history c @ concat (map (pushed P k) calls)"
      "directory c' = directory c" "createdAt (metadata c') = createdAt (metadata c)"
      using run_history [OF assms fresh] by (auto split: if_splits)
    have "chronological P (last (now # concat (map readings calls))) c'"
      if "timely P now r" and "sorted (now # concat (map readings calls))"
      using run_timely [OF that] c'(1) JSON_parse_stringify [of c']
      unfolding timely_def by blast
    with c' show ?thesis by blast
  qed
  show ?thesis
    using one many pushed_contents_in_order [of P k x] by blast
qed

theorem history_after_an_operation_witness:
  "client (step testPlatform emptyStore (CreateSession ''/proj'' [0xa1, 0xb2] 1 1))
     (getContextKey testPlatform ''/proj'' (generateSessionId [0xa1, 0xb2]))
     = Some (JSON_stringify
         \<lparr>directory = ''/proj'', history = [],
          metadata = \<lparr>createdAt = toISOString testPlatform 1,
                      lastAccessed = toISOString testPlatform 1\<rparr>\<rparr>)
   \<and> timely testPlatform 1 (step testPlatform emptyStore (CreateSession ''/proj'' [0xa1, 0xb2] 1 1))
   \<and> sorted (1 # concat (map readings
         [GetContext ''/proj'' (generateSessionId [0xa1, 0xb2]) 2,
          UpdateContext ''/proj'' (generateSessionId [0xa1, 0xb2]) ''hello'' 3 3,
          UpdateContext ''/proj'' (generateSessionId [0xa1, 0xb2]) ''world'' 4 5]))
   \<and> client
         (run testPlatform
            (step testPlatform emptyStore (CreateSession ''/proj'' [0xa1, 0xb2] 1 1))
            [GetContext ''/proj'' (generateSessionId [0xa1, 0xb2]) 2,
             UpdateContext ''/proj'' (generateSessionId [0xa1, 0xb2]) ''hello'' 3 3,
             UpdateContext ''/proj'' (generateSessionId [0xa1, 0xb2]) ''world'' 4 5])
         (getContextKey testPlatform ''/proj'' (generateSessionId [0xa1, 0xb2]))
       = Some (JSON_stringify
           \<lparr>directory = ''/proj'',
            history = [\<lparr>timestamp = toISOString testPlatform 3, content = ''hello''\<rparr>,
                       \<lparr>timestamp = toISOString testPlatform 4, content = ''world''\<rparr>],
            metadata = \<lparr>createdAt = toISOString testPlatform 1,
                        lastAccessed = toISOString testPlatform 5\<rparr>\<rparr>)
   \<and> chronological testPlatform 5
         \<lparr>directory = ''/proj'',
          history = [\<lparr>timestamp = toISOString testPlatform 3, content = ''hello''\<rparr>,
                     \<lparr>timestamp = toISOString testPlatform 4, content = ''world''\<rparr>],
          metadata = \<lparr>createdAt = toISOString testPlatform 1,
                      lastAccessed = toISOString testPlatform 5\<rparr>\<rparr>"
proof -
  let ?sid = "generateSessionId [0xa1, 0xb2]"
  let ?k = "getContextKey testPlatform ''/proj'' ?sid"
  let ?r = "step testPlatform emptyStore (CreateSession ''/proj'' [0xa1, 0xb2] 1 1)"
  let ?c = "\<lparr>directory = ''/proj'', history = [],
              metadata = \<lparr>createdAt = toISOString testPlatform 1,
                          lastAccessed = toISOString testPlatform 1\<rparr>\<rparr>"
  let ?calls = "[GetContext ''/proj'' ?sid 2, UpdateContext ''/proj'' ?sid ''hello'' 3 3,
                 UpdateContext ''/proj'' ?sid ''world'' 4 5]"
  let ?final = "\<lparr>directory = ''/proj'',
            history = [\<lparr>timestamp = toISOString testPlatform 3, content = ''hello''\<rparr>,
                       \<lparr>timestamp = toISOString testPlatform 4, content = ''world''\<rparr>],
            metadata = \<lparr>createdAt = toISOString testPlatform 1,
                        lastAccessed = toISOString testPlatform 5\<rparr>\<rparr>"
  have stored: "client ?r ?k = Some (JSON_stringify ?c)"
    by (simp add: createSession_eq)
  have "timely testPlatform (last (1 # readings (CreateSession ''/proj'' [0xa1, 0xb2] 1 1))) ?r"
    by (rule step_timely [OF timely_empty]) simp
  then have kept: "timely testPlatform 1 ?r" by simp
  have clock: "sorted (1 # concat (map readings ?calls))" by simp
  have fresh: "\<forall>y \<in> set ?calls. isCreate y \<longrightarrow> callKey testPlatform y \<noteq> ?k" by simp
  have alive: "\<forall>y \<in> set ?calls. isEnd y \<longrightarrow> callKey testPlatform y \<noteq> ?k" by simp
  have final: "client (run testPlatform ?r ?calls) ?k = Some (JSON_stringify ?final)"
    by (simp add: createSession_eq getContext_present updateContext_present)
  from history_after_an_operation
         [OF stored, of testPlatform "GetContext ''/proj'' ?sid 2" ?calls 1]
       fresh alive kept clock
  obtain c' where c': "client (run testPlatform ?r ?calls) ?k = Some (JSON_stringify c')"
    "chronological testPlatform (last (1 # concat (map readings ?calls))) c'"
    by blast
  have "c' = ?final" using c'(1) final by (simp add: JSON_stringify_inj)
  then have "chronological testPlatform 5 ?final" using c'(2) by simp
  then show ?thesis using stored kept clock final by simp
qed

text \<open>
  A \<^verbatim>\<open>createSession\<close> that draws the bytes of an earlier one for the same directory writes
  over the stored session: the history that held one entry is empty afterwards.
\<close>

theorem createSession_overwrites_history:
  "client
     (run testPlatform emptyStore
        [CreateSession ''/proj'' [0xa1, 0xb2] 1 1,
         UpdateContext ''/proj'' (generateSessionId [0xa1, 0xb2]) ''hello'' 2 2])
     (getContextKey testPlatform ''/proj'' (generateSessionId [0xa1, 0xb2]))
     = Some (JSON_stringify
         \<lparr>directory = ''/proj'',
          history = [\<lparr>timestamp = toISOString testPlatform 2, content = ''hello''\<rparr>],
          metadata = \<lparr>createdAt = toISOString testPlatform 1,
                      lastAccessed = toISOString testPlatform 2\<rparr>\<rparr>)
   \<and> client
       (run testPlatform emptyStore
          [CreateSession ''/proj'' [0xa1, 0xb2] 1 1,
           UpdateContext ''/proj'' (generateSessionId [0xa1, 0xb2]) ''hello'' 2 2,
           CreateSession ''/proj'' [0xa1, 0xb2] 3 3])
       (getContextKey testPlatform ''/proj'' (generateSessionId [0xa1, 0xb2]))
     = Some (JSON_stringify
         \<lparr>directory = ''/proj'',
          history = [],
          metadata = \<lparr>createdAt = toISOString testPlatform 3,
                      lastAccessed = toISOString testPlatform 3\<rparr>\<rparr>)"
  by (simp add: createSession_eq updateContext_present)

text \<open>
  C7. When the key of \<open>(d, sid)\<close> is absent from the store, \<^verbatim>\<open>getContext(d, sid)\<close> returns
  \<^verbatim>\<open>null\<close> without throwing and \<^verbatim>\<open>endSession(d, sid)\<close> leaves the store as it is (the adapter
  has only connected). In any state, \<^verbatim>\<open>endSession\<close> done twice leaves what \<^verbatim>\<open>endSession\<close> done
  once leaves, a \<^verbatim>\<open>getContext\<close> after \<^verbatim>\<open>endSession\<close> returns \<^verbatim>\<open>null\<close>, and the tool \<^verbatim>\<open>end_session\<close>
  answers \<^verbatim>\<open>{"success":true}\<close> whether or not the key was there.
\<close>

theorem absent_key_is_no_error:
  assumes "client r (getContextKey P d sid) = None"
  shows "getContext P r d sid t = (Inr None, redisClient_connect r)
         \<and> endSession P r d sid = redisClient_connect r
         \<and> endSession P (endSession P r' d sid) d sid = endSession P r' d sid
         \<and> getContext P (endSession P r' d sid) d sid t = (Inr None, endSession P r' d sid)
         \<and> callTool P r' ''end_session''
              (Object [(''directory'', String d), (''sessionId'', String sid)]) rnd t1 t2
             = (Inr (TextContent ''{\"success\":true}''), endSession P r' d sid)"
proof -
  have 1: "getContext P r d sid t = (Inr None, redisClient_connect r)"
    using assms by (simp add: getContext_absent)
  have "(client r)(getContextKey P d sid := None) = client r"
    using assms by (simp add: fun_upd_idem)
  then have 2: "endSession P r d sid = redisClient_connect r"
    by (simp add: endSession_eq)
  have 3: "endSession P (endSession P r' d sid) d sid = endSession P r' d sid"
    by (simp add: endSession_eq)
  have "client (endSession P r' d sid) (getContextKey P d sid) = None"
    by (simp add: endSession_eq)
  then have 4: "getContext P (endSession P r' d sid) d sid t = (Inr None, endSession P r' d sid)"
    by (simp add: getContext_absent) (simp add: endSession_eq)
  have 5: "callTool P r' ''end_session''
              (Object [(''directory'', String d), (''sessionId'', String sid)]) rnd t1 t2
             = (Inr (TextContent ''{\"success\":true}''), endSession P r' d sid)"
    by (simp add: callTool_def toolSwitch_def)
  show ?thesis using 1 2 3 4 5 by simp
qed

theorem absent_key_is_no_error_witness:
  "client emptyStore (getContextKey testPlatform ''/proj'' ''a1b2'') = None
   \<and> getContext testPlatform emptyStore ''/proj'' ''a1b2'' 7
       = (Inr None, \<lparr>connected = True, client = Map.empty\<rparr>)
   \<and> endSession testPlatform emptyStore ''/proj'' ''a1b2''
       = \<lparr>connected = True, client = Map.empty\<rparr>"
proof -
  have h: "client emptyStore (getContextKey testPlatform ''/proj'' ''a1b2'') = None"
    by (simp add: emptyStore_def)
  show ?thesis
    using h absent_key_is_no_error [OF h, of 7]
    by (simp add: emptyStore_def redisClient_connect_def)
qed

text \<open>
  C8. The dispatcher never answers with the code \<^verbatim>\<open>MethodNotFound\<close>: the \<^verbatim>\<open>McpError\<close> of the
  \<^verbatim>\<open>default\<close> case, and the \<^verbatim>\<open>InvalidParams\<close> errors of the four cases, are thrown inside the
  \<^verbatim>\<open>try\<close> block, and its \<^verbatim>\<open>catch\<close> clause throws every error again with the code
  \<^verbatim>\<open>InternalError\<close>. An unknown tool name and a call of \<^verbatim>\<open>create_session\<close> without a directory
  both end with \<^verbatim>\<open>InternalError\<close>, the store untouched.
\<close>

theorem callTool_never_method_not_found:
  "fst (callTool P r name args rnd t1 t2) \<noteq> Inl (McpError MethodNotFound m)
   \<and> callTool P r ''no_such_tool'' (Object []) rnd t1 t2
       = (Inl (McpError InternalError
                 (errorMessage P MethodNotFound ''Unknown tool: no_such_tool'')), r)
   \<and> callTool P r ''create_session'' (Object []) rnd t1 t2
       = (Inl (McpError InternalError
                 (errorMessage P InvalidParams ''Invalid directory parameter'')), r)"
proof -
  have 1: "fst (callTool P r name args rnd t1 t2) \<noteq> Inl (McpError MethodNotFound m)"
    by (auto simp: callTool_def split: prod.splits sum.splits exception.splits)
  have 2: "callTool P r ''no_such_tool'' (Object []) rnd t1 t2
       = (Inl (McpError InternalError
                 (errorMessage P MethodNotFound ''Unknown tool: no_such_tool'')), r)"
    by (simp add: callTool_def toolSwitch_def)
  have 3: "callTool P r ''create_session'' (Object []) rnd t1 t2
       = (Inl (McpError InternalError
                 (errorMessage P InvalidParams ''Invalid directory parameter'')), r)"
    by (simp add: callTool_def toolSwitch_def)
  show ?thesis using 1 2 3 by simp
qed

text \<open>
  C9. For directories \<open>d1 \<noteq> d2\<close> and a session id \<open>s\<close>: when the first eight hexadecimal
  characters of the digests of \<open>d1\<close> and \<open>d2\<close> differ, the keys of \<open>(d1, s)\<close> and \<open>(d2, s)\<close>
  differ.
\<close>

theorem distinct_hash_distinct_key:
  "d1 \<noteq> d2 \<Longrightarrow> hashDirectory P d1 \<noteq> hashDirectory P d2
     \<Longrightarrow> getContextKey P d1 s \<noteq> getContextKey P d2 s"
  by (simp add: getContextKey_def)

theorem distinct_hash_distinct_key_witness:
  "''/a'' \<noteq> ''/bcd''
   \<and> hashDirectory testPlatform ''/a'' \<noteq> hashDirectory testPlatform ''/bcd''
   \<and> getContextKey testPlatform ''/a'' ''a1b2'' \<noteq> getContextKey testPlatform ''/bcd'' ''a1b2''"
proof -
  have h: "hashDirectory testPlatform ''/a'' \<noteq> hashDirectory testPlatform ''/bcd''"
    by (simp add: hashDirectory_def testPlatform_def toHex_def hexByte_def hexDigit_def
        replicate_unfold)
  have d: "''/a'' \<noteq> ''/bcd''" by simp
  show ?thesis using d h distinct_hash_distinct_key [OF d h, of "''a1b2''"] by simp
qed

text \<open>
  C10. When the value stored under the key of \<open>(d, sid)\<close> is the empty string, the adapter's
  \<^verbatim>\<open>get\<close> returns that string, which is not \<^verbatim>\<open>null\<close>; the registry's test \<^verbatim>\<open>!data\<close> holds for it
  all the same, so \<^verbatim>\<open>getContext\<close> returns \<^verbatim>\<open>null\<close> and \<^verbatim>\<open>updateContext\<close> throws the \<^verbatim>\<open>Error\<close> of a
  missing session.
\<close>

theorem empty_value_counts_as_absent:
  assumes "client r (getContextKey P d sid) = Some []"
  shows "fst (redisClient_get r (getContextKey P d sid)) = Some []
         \<and> fst (redisClient_get r (getContextKey P d sid)) \<noteq> None
         \<and> getContext P r d sid t = (Inr None, redisClient_connect r)
         \<and> updateContext P r d sid c t1 t2 =
             (Inl (Error (''No context found for session '' @ sid @ '' in directory '' @ d)),
              redisClient_connect r)"
  using assms by (simp add: getContext_absent updateContext_absent redisClient_get_def)

theorem empty_value_counts_as_absent_witness:
  "client \<lparr>connected = True,
           client = [getContextKey testPlatform ''/proj'' ''a1b2'' \<mapsto> []]\<rparr>
      (getContextKey testPlatform ''/proj'' ''a1b2'') = Some []
   \<and> getContext testPlatform
         \<lparr>connected = True, client = [getContextKey testPlatform ''/proj'' ''a1b2'' \<mapsto> []]\<rparr>
         ''/proj'' ''a1b2'' 7
       = (Inr None,
          \<lparr>connected = True, client = [getContextKey testPlatform ''/proj'' ''a1b2'' \<mapsto> []]\<rparr>)
   \<and> fst (updateContext testPlatform
         \<lparr>connected = True, client = [getContextKey testPlatform ''/proj'' ''a1b2'' \<mapsto> []]\<rparr>
         ''/proj'' ''a1b2'' ''hello'' 7 8)
       = Inl (Error ''No context found for session a1b2 in directory /proj'')"
proof -
  let ?r = "\<lparr>connected = True,
              client = [getContextKey testPlatform ''/proj'' ''a1b2'' \<mapsto> []]\<rparr>"
  have h: "client ?r (getContextKey testPlatform ''/proj'' ''a1b2'') = Some []"
    by simp
  show ?thesis
    using h empty_value_counts_as_absent [OF h, of 7 "''hello''" 7 8]
    by (simp add: redisClient_connect_def)
qed

end
